theory Spec2Isabelle
  imports Complex_Main "HOL-Library.Char_ord" "HOL-Library.List_Lexorder" "HOL-Library.Multiset"
begin

section \<open>Values of the JavaScript runtime\<close>

text \<open>
  The server (\<^verbatim>\<open>src/server.js\<close>) is an Express application with five JSON routes over
  one SQLite table and one generative-text model. A request body is JSON parsed by
  \<^verbatim>\<open>express.json()\<close>; a field read from it by destructuring is a JavaScript value,
  \<^verbatim>\<open>undefined\<close> when the field is absent. A string is kept as its list of bytes. A
  number is a binary64 number: a rational or an infinity (JSON has no NaN).
\<close>

datatype double = NegInf | Finite rat | PosInf

datatype jsvalue =
    JUndefined
  | JNull
  | JBoolean bool
  | JNumber double
  | JString string
  | JArray "jsvalue list"
  | JObject "(string \<times> jsvalue) list"

text \<open>
  What the handlers catch: the \<^verbatim>\<open>TypeError\<close> of a method call on a value that has
  no such method, and whatever the generative-model client throws (its message kept).
\<close>

datatype exn = TypeError | UpstreamError string

subsection \<open>\<^verbatim>\<open>String.prototype.toLowerCase\<close> and \<^verbatim>\<open>String.prototype.includes\<close>\<close>

text \<open>
  \<^verbatim>\<open>toLowerCase\<close> maps the letters A to Z to a to z and is kept as the identity on
  every other byte. The handler only searches the lowercased text for the ASCII word
  \<^verbatim>\<open>diet\<close>, and the prompt embeds the message itself, not its lowercased form. Of the
  characters outside ASCII, only two have a lowercase form that holds an ASCII letter:
  U+0130 gives \<^verbatim>\<open>i\<close> followed by a combining dot, and the Kelvin sign gives
  \<^verbatim>\<open>k\<close>; neither can complete the word. \<^verbatim>\<open>includes\<close> is the search for a
  contiguous occurrence.
\<close>

definition lower_char :: "char \<Rightarrow> char" where
  "lower_char c =
     (let n = (of_char c :: nat) in if 65 \<le> n \<and> n \<le> 90 then char_of (n + 32) else c)"

definition toLowerCase :: "string \<Rightarrow> string" where
  "toLowerCase s = map lower_char s"

fun startsWith :: "string \<Rightarrow> string \<Rightarrow> bool" where
  "startsWith s [] = True"
| "startsWith [] (c # cs) = False"
| "startsWith (x # xs) (c # cs) = (x = c \<and> startsWith xs cs)"

fun includes_str :: "string \<Rightarrow> string \<Rightarrow> bool" where
  "includes_str [] t = (t = [])"
| "includes_str (x # xs) t = (startsWith (x # xs) t \<or> includes_str xs t)"

section \<open>The chat proxy: \<^verbatim>\<open>POST /api/chat\<close>\<close>

definition diet_template :: "string \<Rightarrow> string" where
  "diet_template message =
     ''Provide a detailed 7-day vegetarian diet plan with breakfast, lunch, dinner and snacks. Include calorie counts and nutritional benefits. The request was: ''
     @ message"

definition advice_template :: "string \<Rightarrow> string" where
  "advice_template message =
     ''As a professional self-care assistant, provide specific advice for: ''
     @ message
     @ ''. Give practical steps rather than asking follow-up questions.''"

text \<open>
  Lines 83 to 85: \<^verbatim>\<open>message.toLowerCase().includes('diet') ? ... : ...\<close>. The method
  call throws on every value that is not a string: \<^verbatim>\<open>undefined\<close> and \<^verbatim>\<open>null\<close>
  have no properties, and no value parsed from JSON carries a function.
\<close>

fun chat_prompt :: "jsvalue \<Rightarrow> exn + string" where
  "chat_prompt (JString message) =
     Inr (if includes_str (toLowerCase message) ''diet''
          then diet_template message
          else advice_template message)"
| "chat_prompt _ = Inl TypeError"

section \<open>The reminder store\<close>

subsection \<open>SQLite values, type affinity and comparison\<close>

text \<open>
  The table is created at line 17:
  \<^verbatim>\<open>id INTEGER PRIMARY KEY AUTOINCREMENT, activity TEXT NOT NULL,
  scheduled_time DATETIME NOT NULL, completed BOOLEAN DEFAULT 0\<close>.
  A stored value is NULL, a 64-bit integer, a REAL (a binary64 number) or a text.
\<close>

datatype sqlvalue = SNull | SInteger int | SReal double | SText string

definition int64_min :: int where
  "int64_min = - (2 ^ 63)"

definition int64_max :: int where
  "int64_max = 2 ^ 63 - 1"

text \<open>
  The declared types \<^verbatim>\<open>DATETIME\<close> and \<^verbatim>\<open>BOOLEAN\<close> give their columns NUMERIC
  affinity: a text stored there that is a well-formed integer or real literal becomes
  the number. The literal is: optional white space, an optional sign, digits with an
  optional fraction (at least one digit in all), an optional exponent with at least one
  digit, optional white space.
\<close>

definition isspace :: "char \<Rightarrow> bool" where
  "isspace c = (let n = (of_char c :: nat) in n = 32 \<or> (9 \<le> n \<and> n \<le> 13))"

definition isdigit :: "char \<Rightarrow> bool" where
  "isdigit c = (let n = (of_char c :: nat) in 48 \<le> n \<and> n \<le> 57)"

definition digits_value :: "string \<Rightarrow> int" where
  "digits_value ds = foldl (\<lambda>v c. 10 * v + (int (of_char c) - 48)) 0 ds"

datatype literal = NotNumeric | IntegerLiteral int | RealLiteral

fun skip_sign :: "string \<Rightarrow> bool \<times> string" where
  "skip_sign [] = (False, [])"
| "skip_sign (c # cs) =
     (if c = CHR ''-'' then (True, cs)
      else if c = CHR ''+'' then (False, cs)
      else (False, c # cs))"

fun skip_fraction :: "string \<Rightarrow> bool \<times> string \<times> string" where
  "skip_fraction [] = (False, [], [])"
| "skip_fraction (c # cs) =
     (if c = CHR ''.'' then (True, takeWhile isdigit cs, dropWhile isdigit cs)
      else (False, [], c # cs))"

fun skip_exponent :: "string \<Rightarrow> bool \<times> bool \<times> string" where
  "skip_exponent [] = (False, True, [])"
| "skip_exponent (c # cs) =
     (if c = CHR ''e'' \<or> c = CHR ''E''
      then (let es = snd (skip_sign cs)
            in (True, takeWhile isdigit es \<noteq> [], dropWhile isdigit es))
      else (False, True, c # cs))"

definition classify_numeric :: "string \<Rightarrow> literal" where
  "classify_numeric s =
     (let (negative, s1) = skip_sign (dropWhile isspace s);
          ds = takeWhile isdigit s1;
          (has_dot, fs, s2) = skip_fraction (dropWhile isdigit s1);
          (has_exp, exp_ok, s3) = skip_exponent s2
      in if dropWhile isspace s3 \<noteq> [] \<or> (ds = [] \<and> fs = []) \<or> \<not> exp_ok then NotNumeric
         else if has_dot \<or> has_exp then RealLiteral
         else IntegerLiteral (if negative then - digits_value ds else digits_value ds))"

text \<open>
  A REAL that is a whole number strictly inside the 64-bit range is stored as that
  integer.
\<close>

fun real_value :: "double \<Rightarrow> sqlvalue" where
  "real_value (Finite r) =
     (if of_int \<lfloor>r\<rfloor> = r \<and> of_int int64_min < r \<and> r < of_int int64_max
      then SInteger \<lfloor>r\<rfloor> else SReal (Finite r))"
| "real_value d = SReal d"

text \<open>
  The binary64 number that SQLite reads from a real literal, or from an integer literal
  outside the 64-bit range, is the parameter \<open>atof\<close>: decimal-to-binary rounding is not
  computed here.
\<close>

definition numeric_affinity :: "(string \<Rightarrow> double) \<Rightarrow> string \<Rightarrow> sqlvalue" where
  "numeric_affinity atof s =
     (case classify_numeric s of
        NotNumeric \<Rightarrow> SText s
      | IntegerLiteral n \<Rightarrow>
          if int64_min \<le> n \<and> n \<le> int64_max then SInteger n else real_value (atof s)
      | RealLiteral \<Rightarrow> real_value (atof s))"

text \<open>
  NUMERIC affinity on any bound value: a text as above, a REAL that is a whole number as
  that integer, everything else as it is.
\<close>

fun column_numeric_affinity :: "(string \<Rightarrow> double) \<Rightarrow> sqlvalue \<Rightarrow> sqlvalue" where
  "column_numeric_affinity atof (SText s) = numeric_affinity atof s"
| "column_numeric_affinity atof (SReal x) = real_value x"
| "column_numeric_affinity atof v = v"

text \<open>
  The declared type \<^verbatim>\<open>TEXT\<close> gives \<^verbatim>\<open>activity\<close> TEXT affinity: a number stored
  there becomes its text, an integer in decimal digits. The text that SQLite prints for a
  REAL is the parameter \<open>real_text\<close>.
\<close>

definition digit_char :: "nat \<Rightarrow> char" where
  "digit_char n = ''0123456789'' ! n"

function decimal :: "int \<Rightarrow> string" where
  "decimal n =
     (if n < 10 then [digit_char (nat n)]
      else decimal (n div 10) @ [digit_char (nat (n mod 10))])"
  by pat_completeness auto
termination
  by (relation "measure nat") auto

definition int_text :: "int \<Rightarrow> string" where
  "int_text n = (if n < 0 then CHR ''-'' # decimal (- n) else decimal n)"

fun text_affinity :: "(double \<Rightarrow> string) \<Rightarrow> sqlvalue \<Rightarrow> sqlvalue" where
  "text_affinity real_text (SInteger n) = SText (int_text n)"
| "text_affinity real_text (SReal x) = SText (real_text x)"
| "text_affinity real_text v = v"

text \<open>
  What the driver binds for a JavaScript value: a string as text; a number as an integer
  when it is a whole number of 32 bits, as a REAL otherwise; a boolean as 1 or 0;
  \<^verbatim>\<open>null\<close> as NULL; \<^verbatim>\<open>undefined\<close> is not bound, which leaves NULL; an array or
  an object as the text that JavaScript's string conversion gives it, the parameter
  \<open>toString\<close>.
\<close>

fun bind_parameter :: "(jsvalue \<Rightarrow> string) \<Rightarrow> jsvalue \<Rightarrow> sqlvalue" where
  "bind_parameter toString (JString s) = SText s"
| "bind_parameter toString (JNumber (Finite r)) =
     (if of_int \<lfloor>r\<rfloor> = r \<and> - (2 ^ 31) \<le> r \<and> r \<le> 2 ^ 31 - 1
      then SInteger \<lfloor>r\<rfloor> else SReal (Finite r))"
| "bind_parameter toString (JNumber x) = SReal x"
| "bind_parameter toString (JBoolean b) = SInteger (if b then 1 else 0)"
| "bind_parameter toString JNull = SNull"
| "bind_parameter toString JUndefined = SNull"
| "bind_parameter toString v = SText (toString v)"

text \<open>
  The order of \<^verbatim>\<open>ORDER BY\<close>: NULL first, then the numbers by value, then the texts
  byte by byte (a prefix before its extensions).
\<close>

fun double_le :: "double \<Rightarrow> double \<Rightarrow> bool" where
  "double_le NegInf _ = True"
| "double_le _ PosInf = True"
| "double_le (Finite a) (Finite b) = (a \<le> b)"
| "double_le _ _ = False"

fun as_double :: "sqlvalue \<Rightarrow> double" where
  "as_double (SInteger n) = Finite (of_int n)"
| "as_double (SReal d) = d"
| "as_double _ = Finite 0"

fun sql_le :: "sqlvalue \<Rightarrow> sqlvalue \<Rightarrow> bool" where
  "sql_le SNull _ = True"
| "sql_le _ SNull = False"
| "sql_le (SText s) (SText t) = (s \<le> t)"
| "sql_le (SText _) _ = False"
| "sql_le _ (SText _) = True"
| "sql_le a b = double_le (as_double a) (as_double b)"

subsection \<open>The table and its three statements\<close>

record reminder =
  id_col :: int
  activity :: sqlvalue
  scheduled_time :: sqlvalue
  completed :: sqlvalue

text \<open>
  The database: the rows of \<^verbatim>\<open>reminders\<close> in table order, and the counter that
  \<^verbatim>\<open>AUTOINCREMENT\<close> keeps in \<^verbatim>\<open>sqlite_sequence\<close> (the largest id ever given).
\<close>

record db =
  reminders :: "reminder list"
  sqlite_sequence :: int

definition empty_db :: db where
  "empty_db = \<lparr>reminders = [], sqlite_sequence = 0\<rparr>"

datatype sqlite_error = SqliteError (error_message: string)

text \<open>
  \<^verbatim>\<open>SELECT * FROM reminders ORDER BY scheduled_time DESC\<close>. Rows with equal
  \<^verbatim>\<open>scheduled_time\<close>, whose relative order SQL leaves open, stay in table order.
  The argument \<open>fault\<close> of each statement is the error, if any, that the driver reports
  for reasons outside the statement (the file cannot be read, the database is locked).
\<close>

fun insert_desc :: "reminder \<Rightarrow> reminder list \<Rightarrow> reminder list" where
  "insert_desc r [] = [r]"
| "insert_desc r (x # xs) =
     (if sql_le (scheduled_time x) (scheduled_time r) then r # x # xs
      else x # insert_desc r xs)"

definition order_by_scheduled_time_desc :: "reminder list \<Rightarrow> reminder list" where
  "order_by_scheduled_time_desc rows = foldr insert_desc rows []"

definition db_all :: "sqlite_error option \<Rightarrow> db \<Rightarrow> sqlite_error + reminder list" where
  "db_all fault d =
     (case fault of
        Some err \<Rightarrow> Inl err
      | None \<Rightarrow> Inr (order_by_scheduled_time_desc (reminders d)))"

text \<open>
  \<^verbatim>\<open>INSERT INTO reminders (activity, scheduled_time) VALUES (?, ?)\<close>, given the two
  bound values. The new id is one more than the largest id the table holds or has ever
  held; past the largest 64-bit integer the insert fails, before the values are looked at.
  \<^verbatim>\<open>NOT NULL\<close> rejects a NULL. Each value is stored under the affinity of its column,
  and \<^verbatim>\<open>completed\<close> takes its default.
\<close>

definition max_rowid :: "reminder list \<Rightarrow> int" where
  "max_rowid rows = foldr (\<lambda>r m. max (id_col r) m) rows 0"

definition db_run_insert ::
  "(string \<Rightarrow> double) \<Rightarrow> (double \<Rightarrow> string) \<Rightarrow> sqlite_error option \<Rightarrow> db
     \<Rightarrow> sqlvalue \<Rightarrow> sqlvalue \<Rightarrow> sqlite_error + (db \<times> int)" where
  "db_run_insert atof real_text fault d act time =
     (case fault of
        Some err \<Rightarrow> Inl err
      | None \<Rightarrow>
          (let largest = max (sqlite_sequence d) (max_rowid (reminders d))
           in if int64_max \<le> largest
              then Inl (SqliteError ''SQLITE_FULL: database or disk is full'')
              else if act = SNull
              then Inl (SqliteError
                     ''SQLITE_CONSTRAINT: NOT NULL constraint failed: reminders.activity'')
              else if time = SNull
              then Inl (SqliteError
                     ''SQLITE_CONSTRAINT: NOT NULL constraint failed: reminders.scheduled_time'')
              else Inr (\<lparr>reminders = reminders d @
                          [\<lparr>id_col = largest + 1,
                            activity = text_affinity real_text act,
                            scheduled_time = column_numeric_affinity atof time,
                            completed = SInteger 0\<rparr>],
                         sqlite_sequence = largest + 1\<rparr>,
                        largest + 1)))"

text \<open>
  \<^verbatim>\<open>DELETE FROM reminders WHERE id = ?\<close>, the bound value being the text of the path
  segment. Against the integer key the text is taken as the integer it denotes, if it
  denotes one (\<^verbatim>\<open>2\<close>, \<^verbatim>\<open>2.0\<close>); a text that is no number, or a number that is
  no 64-bit integer, equals no id.
\<close>

definition where_id_eq :: "(string \<Rightarrow> double) \<Rightarrow> int \<Rightarrow> string \<Rightarrow> bool" where
  "where_id_eq atof rowid param =
     (case numeric_affinity atof param of
        SInteger n \<Rightarrow> rowid = n
      | _ \<Rightarrow> False)"

definition db_run_delete ::
  "(string \<Rightarrow> double) \<Rightarrow> sqlite_error option \<Rightarrow> db \<Rightarrow> string \<Rightarrow> sqlite_error + db" where
  "db_run_delete atof fault d param =
     (case fault of
        Some err \<Rightarrow> Inl err
      | None \<Rightarrow>
          Inr (d\<lparr>reminders := filter (\<lambda>r. \<not> where_id_eq atof (id_col r) param) (reminders d)\<rparr>))"

section \<open>The route handlers\<close>

text \<open>
  What a handler meets outside the process while it serves one request: the error the
  database driver reports, if any; what the generative model makes of a prompt (its text,
  or the error thrown by \<^verbatim>\<open>generateContent\<close> or by \<^verbatim>\<open>response.text()\<close>); the
  REAL that SQLite reads from a literal and the text it prints for a REAL; and the text
  that JavaScript makes of an array or an object.
\<close>

record env =
  fault :: "sqlite_error option"
  generateContent :: "string \<Rightarrow> exn + string"
  atof :: "string \<Rightarrow> double"
  real_text :: "double \<Rightarrow> string"
  toString :: "jsvalue \<Rightarrow> string"

text \<open>
  A response body, one constructor for each shape passed to \<^verbatim>\<open>res.json\<close>:
  \<^verbatim>\<open>{ suggestion }\<close>, \<^verbatim>\<open>{ reply }\<close>, the array of rows, \<^verbatim>\<open>{ id }\<close>,
  \<^verbatim>\<open>{ message }\<close> and \<^verbatim>\<open>{ error }\<close>. A body carries the values themselves:
  their rendering as JavaScript numbers and as JSON text is not part of the model (an
  integer of more than 53 bits is not exact there).
\<close>

datatype body =
    SuggestionBody string
  | ReplyBody string
  | RowsBody "reminder list"
  | IdBody int
  | MessageBody string
  | ErrorBody string

record response =
  status :: nat
  body :: body

text \<open>
  What serving a request leaves behind: the response, the database, the prompts sent to
  the generative model (one entry for each call of \<^verbatim>\<open>generateContent\<close>) and the lines
  written by \<^verbatim>\<open>console.error\<close>.
\<close>

record result =
  res :: response
  store :: db
  calls :: "string list"
  console :: "(string \<times> exn) list"

definition json :: "body \<Rightarrow> response" where
  "json b = \<lparr>status = 200, body = b\<rparr>"

definition status_json :: "nat \<Rightarrow> body \<Rightarrow> response" where
  "status_json code b = \<lparr>status = code, body = b\<rparr>"

definition suggestion_prompt :: string where
  "suggestion_prompt =
     ''Suggest a random self-care activity with a brief explanation why it's beneficial. Keep it concise and friendly.''"

text \<open>\<^verbatim>\<open>GET /api/suggestions\<close>, lines 29 to 42.\<close>

definition get_suggestions :: "env \<Rightarrow> db \<Rightarrow> result" where
  "get_suggestions e d =
     (case generateContent e suggestion_prompt of
        Inr text \<Rightarrow>
          \<lparr>res = json (SuggestionBody text), store = d,
           calls = [suggestion_prompt], console = []\<rparr>
      | Inl error \<Rightarrow>
          \<lparr>res = status_json 500 (ErrorBody ''Failed to get suggestion''), store = d,
           calls = [suggestion_prompt], console = [(''API Error:'', error)]\<rparr>)"

text \<open>\<^verbatim>\<open>GET /api/reminders\<close>, lines 44 to 52.\<close>

definition get_reminders :: "env \<Rightarrow> db \<Rightarrow> result" where
  "get_reminders e d =
     (case db_all (fault e) d of
        Inl err \<Rightarrow>
          \<lparr>res = status_json 500 (ErrorBody (error_message err)), store = d,
           calls = [], console = []\<rparr>
      | Inr rows \<Rightarrow>
          \<lparr>res = json (RowsBody rows), store = d, calls = [], console = []\<rparr>)"

text \<open>
  \<^verbatim>\<open>POST /api/reminders\<close>, lines 54 to 65. The two fields of the body are bound
  as they come, whatever their type.
\<close>

definition post_reminders :: "env \<Rightarrow> jsvalue \<Rightarrow> jsvalue \<Rightarrow> db \<Rightarrow> result" where
  "post_reminders e act time d =
     (case db_run_insert (atof e) (real_text e) (fault e) d
             (bind_parameter (toString e) act) (bind_parameter (toString e) time) of
        Inl err \<Rightarrow>
          \<lparr>res = status_json 500 (ErrorBody (error_message err)), store = d,
           calls = [], console = []\<rparr>
      | Inr (d', lastID) \<Rightarrow>
          \<lparr>res = json (IdBody lastID), store = d', calls = [], console = []\<rparr>)"

text \<open>\<^verbatim>\<open>DELETE /api/reminders/:id\<close>, lines 67 to 75.\<close>

definition delete_reminders :: "env \<Rightarrow> string \<Rightarrow> db \<Rightarrow> result" where
  "delete_reminders e param d =
     (case db_run_delete (atof e) (fault e) d param of
        Inl err \<Rightarrow>
          \<lparr>res = status_json 500 (ErrorBody (error_message err)), store = d,
           calls = [], console = []\<rparr>
      | Inr d' \<Rightarrow>
          \<lparr>res = json (MessageBody ''Reminder deleted''), store = d',
           calls = [], console = []\<rparr>)"

text \<open>
  \<^verbatim>\<open>POST /api/chat\<close>, lines 77 to 97. An exception thrown while the prompt is built
  reaches the \<^verbatim>\<open>catch\<close> before any call of the model.
\<close>

definition post_chat :: "env \<Rightarrow> jsvalue \<Rightarrow> db \<Rightarrow> result" where
  "post_chat e msg d =
     (case chat_prompt msg of
        Inl error \<Rightarrow>
          \<lparr>res = status_json 500 (ErrorBody ''Failed to process chat message''), store = d,
           calls = [], console = [(''Chat Error:'', error)]\<rparr>
      | Inr prompt \<Rightarrow>
          (case generateContent e prompt of
             Inr text \<Rightarrow>
               \<lparr>res = json (ReplyBody text), store = d, calls = [prompt], console = []\<rparr>
           | Inl error \<Rightarrow>
               \<lparr>res = status_json 500 (ErrorBody ''Failed to process chat message''),
                store = d, calls = [prompt], console = [(''Chat Error:'', error)]\<rparr>))"

text \<open>The five JSON routes. (The sixth route serves the static page and is left out.)\<close>

datatype request =
    GET_suggestions
  | GET_reminders
  | POST_reminders jsvalue jsvalue
  | DELETE_reminders string
  | POST_chat jsvalue

fun handle :: "env \<Rightarrow> request \<Rightarrow> db \<Rightarrow> result" where
  "handle e GET_suggestions d = get_suggestions e d"
| "handle e GET_reminders d = get_reminders e d"
| "handle e (POST_reminders act time) d = post_reminders e act time d"
| "handle e (DELETE_reminders param) d = delete_reminders e param d"
| "handle e (POST_chat msg) d = post_chat e msg d"

text \<open>
  A run of the server: the requests are served one after the other, each in the
  environment it meets, and each starts from the database the one before left.
\<close>

fun serve :: "(env \<times> request) list \<Rightarrow> db \<Rightarrow> db \<times> response list" where
  "serve [] d = (d, [])"
| "serve ((e, rq) # rest) d =
     (let r = handle e rq d; (d', out) = serve rest (store r) in (d', res r # out))"

text \<open>The ids that a run reports as newly assigned, in order.\<close>

fun assigned_ids :: "response list \<Rightarrow> int list" where
  "assigned_ids [] = []"
| "assigned_ids (r # rs) =
     (case body r of IdBody n \<Rightarrow> n # assigned_ids rs | _ \<Rightarrow> assigned_ids rs)"

text \<open>
  The rows that a run stores, in order: after each request, the rows of the table that
  were not there before it.
\<close>

fun new_rows :: "(env \<times> request) list \<Rightarrow> db \<Rightarrow> reminder list" where
  "new_rows [] d = []"
| "new_rows ((e, rq) # rest) d =
     (let d' = store (handle e rq d)
      in filter (\<lambda>r. r \<notin> set (reminders d)) (reminders d') @ new_rows rest d')"

text \<open>
  The constraints of the schema on a database: \<^verbatim>\<open>PRIMARY KEY\<close> (no two rows share an
  id), \<^verbatim>\<open>AUTOINCREMENT\<close> (no id exceeds the counter) and \<^verbatim>\<open>NOT NULL\<close>.
\<close>

definition schema_ok :: "db \<Rightarrow> bool" where
  "schema_ok d =
     (distinct (map id_col (reminders d)) \<and>
      list_all (\<lambda>r. id_col r \<le> sqlite_sequence d \<and> activity r \<noteq> SNull \<and>
                     scheduled_time r \<noteq> SNull) (reminders d))"

text \<open>The order of a listing: no row is scheduled before a row that comes after it.\<close>

abbreviation desc :: "reminder \<Rightarrow> reminder \<Rightarrow> bool" where
  "desc r r' \<equiv> sql_le (scheduled_time r') (scheduled_time r)"

section \<open>Examples\<close>

text \<open>
  Three environments for running the handlers: one in which nothing fails, one whose
  generative model rejects every prompt, one whose database file cannot be read. Their
  last three fields are never consulted below: no example holds a real literal, a REAL,
  an array or an object.
\<close>

definition quiet :: env where
  "quiet = \<lparr>fault = None, generateContent = (\<lambda>prompt. Inr ''Take a short walk.''),
            atof = (\<lambda>s. Finite 0), real_text = (\<lambda>x. ''0.0''),
            toString = (\<lambda>v. ''[object Object]'')\<rparr>"

definition failing_model :: env where
  "failing_model =
     quiet\<lparr>generateContent := (\<lambda>prompt. Inl (UpstreamError ''429 quota exceeded''))\<rparr>"

definition failing_disk :: env where
  "failing_disk = quiet\<lparr>fault := Some (SqliteError ''SQLITE_IOERR: disk I/O error'')\<rparr>"

text \<open>
  A table of three rows whose times are not in the order of their ids; the row with id 3
  has been deleted.
\<close>

definition three_rows :: db where
  "three_rows =
     \<lparr>reminders =
         [\<lparr>id_col = 1, activity = SText ''Meditate'',
           scheduled_time = SText ''2024-01-01T08:00:00'', completed = SInteger 0\<rparr>,
          \<lparr>id_col = 2, activity = SText ''Walk'',
           scheduled_time = SText ''2024-03-01T08:00:00'', completed = SInteger 0\<rparr>,
          \<lparr>id_col = 4, activity = SText ''Read'',
           scheduled_time = SText ''2024-02-01T08:00:00'', completed = SInteger 0\<rparr>],
       sqlite_sequence = 4\<rparr>"

text \<open>A run: an insert, the deletion of the row just inserted, a second insert.\<close>

definition insert_delete_insert :: "(env \<times> request) list" where
  "insert_delete_insert =
     [(quiet, POST_reminders (JString ''Meditate'') (JString ''2024-01-01T08:00:00'')),
      (quiet, DELETE_reminders ''1''),
      (quiet, POST_reminders (JString ''Walk'') (JString ''2024-03-01T08:00:00''))]"

section \<open>Strings and the order of values\<close>

lemma startsWith_iff: "startsWith s t \<longleftrightarrow> (\<exists>b. s = t @ b)"
  by (induction s t rule: startsWith.induct) auto

lemma includes_str_iff: "includes_str s t \<longleftrightarrow> (\<exists>a b. s = a @ t @ b)"
proof (induction s)
  case Nil
  then show ?case by auto
next
  case (Cons x xs)
  show ?case
  proof
    assume "includes_str (x # xs) t"
    then consider "startsWith (x # xs) t" | "includes_str xs t" by auto
    then show "\<exists>a b. x # xs = a @ t @ b"
    proof cases
      case 1
      then obtain b where "x # xs = t @ b" by (auto simp: startsWith_iff)
      then have "x # xs = [] @ t @ b" by simp
      then show ?thesis by blast
    next
      case 2
      then obtain a b where "xs = a @ t @ b" using Cons.IH by auto
      then have "x # xs = (x # a) @ t @ b" by simp
      then show ?thesis by blast
    qed
  next
    assume "\<exists>a b. x # xs = a @ t @ b"
    then obtain a b where ab: "x # xs = a @ t @ b" by blast
    show "includes_str (x # xs) t"
    proof (cases a)
      case Nil
      then have "startsWith (x # xs) t" using ab by (auto simp: startsWith_iff)
      then show ?thesis by simp
    next
      case (Cons y ys)
      then have "xs = ys @ t @ b" using ab by simp
      then have "includes_str xs t" using Cons.IH by blast
      then show ?thesis by simp
    qed
  qed
qed

lemma toLowerCase_append: "toLowerCase (a @ b) = toLowerCase a @ toLowerCase b"
  by (simp add: toLowerCase_def)

lemma templates_differ: "diet_template m \<noteq> advice_template m'"
  by (simp add: diet_template_def advice_template_def)

lemma double_le_total: "double_le a b \<or> double_le b a"
  by (cases a; cases b) auto

lemma double_le_trans: "double_le a b \<Longrightarrow> double_le b c \<Longrightarrow> double_le a c"
  by (cases a; cases b; cases c) auto

lemma sql_le_total: "sql_le a b \<or> sql_le b a"
  using double_le_total by (cases a; cases b) auto

lemma sql_le_numeric:
  "a \<noteq> SNull \<Longrightarrow> b \<noteq> SNull \<Longrightarrow> (\<forall>s. a \<noteq> SText s) \<Longrightarrow> (\<forall>s. b \<noteq> SText s) \<Longrightarrow>
   sql_le a b = double_le (as_double a) (as_double b)"
  by (cases a; cases b) auto

lemma sql_le_trans: "sql_le a b \<Longrightarrow> sql_le b c \<Longrightarrow> sql_le a c"
proof (cases "a = SNull \<or> b = SNull \<or> c = SNull \<or> (\<exists>s. a = SText s) \<or> (\<exists>s. b = SText s) \<or> (\<exists>s. c = SText s)")
  case True
  assume "sql_le a b" "sql_le b c"
  with True show ?thesis by (cases a; cases b; cases c) auto
next
  case False
  assume "sql_le a b" "sql_le b c"
  with False show ?thesis
    using double_le_trans [of "as_double a" "as_double b" "as_double c"]
    by (simp add: sql_le_numeric)
qed

lemma real_value_not_null: "real_value x \<noteq> SNull"
  by (cases x) auto

lemma real_value_not_text: "real_value x \<noteq> SText s"
  by (cases x) auto

lemma numeric_affinity_not_null: "numeric_affinity f s \<noteq> SNull"
  by (simp add: numeric_affinity_def real_value_not_null split: literal.splits)

lemma numeric_affinity_text:
  "classify_numeric s = NotNumeric \<Longrightarrow> numeric_affinity f s = SText s"
  by (simp add: numeric_affinity_def)

lemma numeric_affinity_number:
  "classify_numeric t \<noteq> NotNumeric \<Longrightarrow> numeric_affinity f t \<noteq> SText s"
  by (cases "classify_numeric t") (simp_all add: numeric_affinity_def real_value_not_text)

lemma numeric_affinity_integer:
  "classify_numeric t = IntegerLiteral k \<Longrightarrow> int64_min \<le> k \<Longrightarrow> k \<le> int64_max \<Longrightarrow>
   numeric_affinity f t = SInteger k"
  by (simp add: numeric_affinity_def)

lemma column_numeric_affinity_not_null:
  "v \<noteq> SNull \<Longrightarrow> column_numeric_affinity f v \<noteq> SNull"
  by (cases v) (simp_all add: numeric_affinity_not_null real_value_not_null)

lemma text_affinity_not_null: "v \<noteq> SNull \<Longrightarrow> text_affinity g v \<noteq> SNull"
  by (cases v) simp_all

lemma where_id_eq_unique:
  "where_id_eq f n p \<Longrightarrow> where_id_eq f n' p \<Longrightarrow> n = n'"
  by (auto simp: where_id_eq_def split: sqlvalue.splits)

lemma where_id_eq_7: "where_id_eq f n ''7'' = (n = 7)"
  by (simp add: where_id_eq_def numeric_affinity_def classify_numeric_def isspace_def isdigit_def
      digits_value_def int64_min_def int64_max_def)

lemma where_id_eq_2: "where_id_eq f n ''2'' = (n = 2)"
  by (simp add: where_id_eq_def numeric_affinity_def classify_numeric_def isspace_def isdigit_def
      digits_value_def int64_min_def int64_max_def)

section \<open>The statements of the store\<close>

lemma mset_insert_desc: "mset (insert_desc r xs) = add_mset r (mset xs)"
  by (induction xs) auto

lemma set_insert_desc: "set (insert_desc r xs) = insert r (set xs)"
  by (induction xs) auto

lemma sorted_insert_desc:
  "sorted_wrt desc xs \<Longrightarrow> sorted_wrt desc (insert_desc r xs)"
proof (induction xs)
  case Nil
  then show ?case by simp
next
  case (Cons x xs)
  show ?case
  proof (cases "sql_le (scheduled_time x) (scheduled_time r)")
    case True
    then have "\<forall>y\<in>set xs. desc r y"
      using Cons.prems by (auto intro: sql_le_trans)
    then show ?thesis using True Cons.prems by simp
  next
    case False
    then have "desc x r" using sql_le_total by blast
    then show ?thesis using False Cons by (auto simp: set_insert_desc)
  qed
qed

lemma mset_order_by: "mset (order_by_scheduled_time_desc rows) = mset rows"
  unfolding order_by_scheduled_time_desc_def by (induction rows) (auto simp: mset_insert_desc)

lemma sorted_order_by: "sorted_wrt desc (order_by_scheduled_time_desc rows)"
  unfolding order_by_scheduled_time_desc_def by (induction rows) (auto intro: sorted_insert_desc)

lemma max_rowid_ge: "r \<in> set rows \<Longrightarrow> id_col r \<le> max_rowid rows"
  unfolding max_rowid_def by (induction rows) auto

lemma db_run_insert_Inr:
  assumes "db_run_insert f g flt d act time = Inr (d', n)"
  obtains "flt = None" and "act \<noteq> SNull" and "time \<noteq> SNull"
    and "n = max (sqlite_sequence d) (max_rowid (reminders d)) + 1"
    and "n \<le> int64_max"
    and "reminders d' = reminders d @
              [\<lparr>id_col = n, activity = text_affinity g act,
                scheduled_time = column_numeric_affinity f time, completed = SInteger 0\<rparr>]"
    and "sqlite_sequence d' = n"
proof -
  from assms have 1: "flt = None"
    by (simp add: db_run_insert_def split: option.splits)
  let ?m = "max (sqlite_sequence d) (max_rowid (reminders d))"
  from assms 1 have 2: "\<not> int64_max \<le> ?m"
    by (simp add: db_run_insert_def Let_def split: if_splits)
  from assms 1 2 have 3: "act \<noteq> SNull"
    by (auto simp add: db_run_insert_def Let_def)
  from assms 1 2 3 have 4: "time \<noteq> SNull"
    by (auto simp add: db_run_insert_def Let_def)
  from assms 1 2 3 4 have 5: "n = ?m + 1"
    and 6: "d' = \<lparr>reminders = reminders d @
              [\<lparr>id_col = ?m + 1, activity = text_affinity g act,
                scheduled_time = column_numeric_affinity f time, completed = SInteger 0\<rparr>],
              sqlite_sequence = ?m + 1\<rparr>"
    by (auto simp add: db_run_insert_def Let_def)
  from 6 5 have 7: "reminders d' = reminders d @
              [\<lparr>id_col = n, activity = text_affinity g act,
                scheduled_time = column_numeric_affinity f time, completed = SInteger 0\<rparr>]"
    and 8: "sqlite_sequence d' = n"
    by simp_all
  from 2 5 have 9: "n \<le> int64_max" by simp
  from 1 3 4 5 9 7 8 show thesis by (rule that)
qed

lemma post_reminders_200:
  assumes "status (res (post_reminders e act time d)) = 200"
  obtains d' n where "db_run_insert (atof e) (real_text e) (fault e) d
        (bind_parameter (toString e) act) (bind_parameter (toString e) time) = Inr (d', n)"
    and "post_reminders e act time d =
           \<lparr>res = \<lparr>status = 200, body = IdBody n\<rparr>, store = d', calls = [], console = []\<rparr>"
proof (cases "db_run_insert (atof e) (real_text e) (fault e) d
        (bind_parameter (toString e) act) (bind_parameter (toString e) time)")
  case (Inl err)
  then have False using assms by (simp add: post_reminders_def status_json_def)
  then show thesis ..
next
  case (Inr p)
  obtain d' n where p: "p = (d', n)" by (cases p)
  have "post_reminders e act time d =
           \<lparr>res = \<lparr>status = 200, body = IdBody n\<rparr>, store = d', calls = [], console = []\<rparr>"
    using Inr p by (simp add: post_reminders_def json_def)
  with Inr p show thesis by (auto intro: that)
qed

lemma delete_ok:
  "fault e = None \<Longrightarrow>
   delete_reminders e param d =
     \<lparr>res = \<lparr>status = 200, body = MessageBody ''Reminder deleted''\<rparr>,
      store = d\<lparr>reminders := filter (\<lambda>r. \<not> where_id_eq (atof e) (id_col r) param) (reminders d)\<rparr>,
      calls = [], console = []\<rparr>"
  by (simp add: delete_reminders_def db_run_delete_def json_def)

lemma filter_absent: "r \<notin> set xs \<Longrightarrow> filter (\<lambda>x. x \<noteq> r) xs = xs"
  by (induction xs) auto

lemma mset_remove_distinct:
  "distinct xs \<Longrightarrow> r \<in> set xs \<Longrightarrow> mset xs = add_mset r (mset (filter (\<lambda>x. x \<noteq> r) xs))"
proof (induction xs)
  case Nil
  then show ?case by simp
next
  case (Cons x xs)
  show ?case
  proof (cases "x = r")
    case True
    then have "r \<notin> set xs" using Cons.prems(1) by simp
    then have "filter (\<lambda>x. x \<noteq> r) xs = xs" by (rule filter_absent)
    then have "filter (\<lambda>x. x \<noteq> r) (x # xs) = xs" using True by simp
    then show ?thesis using True by (simp only: mset.simps)
  next
    case False
    then have "r \<in> set xs" using Cons.prems(2) by simp
    moreover have "distinct xs" using Cons.prems(1) by simp
    ultimately have "mset xs = add_mset r (mset (filter (\<lambda>x. x \<noteq> r) xs))" by (rule Cons.IH [rotated])
    moreover have "filter (\<lambda>x. x \<noteq> r) (x # xs) = x # filter (\<lambda>x. x \<noteq> r) xs" using False by simp
    ultimately show ?thesis by (simp only: mset.simps add_mset_commute)
  qed
qed

lemma distinct_map_filter_id: "distinct (map f xs) \<Longrightarrow> distinct (map f (filter P xs))"
  by (induction xs) auto

section \<open>What every request preserves\<close>

lemma handle_rows:
  assumes "row \<in> set (reminders (store (handle e rq d)))"
  shows "row \<in> set (reminders d) \<or>
         (max (sqlite_sequence d) (max_rowid (reminders d)) < id_col row \<and> activity row \<noteq> SNull \<and> scheduled_time row \<noteq> SNull
          \<and> id_col row = sqlite_sequence (store (handle e rq d)))"
proof (cases rq)
  case GET_suggestions
  then show ?thesis using assms by (simp add: get_suggestions_def split: sum.splits)
next
  case GET_reminders
  then show ?thesis using assms by (simp add: get_reminders_def split: sum.splits)
next
  case (POST_reminders act time)
  show ?thesis
  proof (cases "db_run_insert (atof e) (real_text e) (fault e) d
        (bind_parameter (toString e) act) (bind_parameter (toString e) time)")
    case (Inl err)
    then show ?thesis using assms POST_reminders by (simp add: post_reminders_def)
  next
    case (Inr p)
    obtain d' n where p: "p = (d', n)" by (cases p)
    from Inr p have ins: "db_run_insert (atof e) (real_text e) (fault e) d
        (bind_parameter (toString e) act) (bind_parameter (toString e) time) = Inr (d', n)" by simp
    from ins have d': "reminders d' = reminders d @
              [\<lparr>id_col = n,
                activity = text_affinity (real_text e) (bind_parameter (toString e) act),
                scheduled_time =
                  column_numeric_affinity (atof e) (bind_parameter (toString e) time),
                completed = SInteger 0\<rparr>]"
      and n: "n = max (sqlite_sequence d) (max_rowid (reminders d)) + 1"
      and sq: "sqlite_sequence d' = n"
      and nn: "bind_parameter (toString e) act \<noteq> SNull"
        "bind_parameter (toString e) time \<noteq> SNull"
      by (rule db_run_insert_Inr, simp)+
    have "store (handle e rq d) = d'" using POST_reminders Inr p by (simp add: post_reminders_def)
    then show ?thesis using assms d' n sq nn
      by (auto simp: text_affinity_not_null column_numeric_affinity_not_null)
  qed
next
  case (DELETE_reminders param)
  then show ?thesis using assms
    by (auto simp: delete_reminders_def db_run_delete_def split: sum.splits option.splits)
next
  case (POST_chat msg)
  then show ?thesis using assms by (simp add: post_chat_def split: sum.splits)
qed

lemma handle_sequence:
  "sqlite_sequence d \<le> sqlite_sequence (store (handle e rq d))"
proof (cases rq)
  case (POST_reminders act time)
  show ?thesis
  proof (cases "db_run_insert (atof e) (real_text e) (fault e) d
        (bind_parameter (toString e) act) (bind_parameter (toString e) time)")
    case (Inl err)
    then show ?thesis using POST_reminders by (simp add: post_reminders_def)
  next
    case (Inr p)
    obtain d' n where p: "p = (d', n)" by (cases p)
    from Inr p have ins: "db_run_insert (atof e) (real_text e) (fault e) d
        (bind_parameter (toString e) act) (bind_parameter (toString e) time) = Inr (d', n)" by simp
    from ins have "sqlite_sequence d' = n" "n = max (sqlite_sequence d) (max_rowid (reminders d)) + 1"
      by (rule db_run_insert_Inr, simp)+
    then show ?thesis using POST_reminders Inr p by (simp add: post_reminders_def)
  qed
qed (auto simp: get_suggestions_def get_reminders_def delete_reminders_def db_run_delete_def post_chat_def
      split: sum.splits option.splits)

lemma handle_IdBody:
  assumes "body (res (handle e rq d)) = IdBody n"
  shows "sqlite_sequence d < n \<and> sqlite_sequence (store (handle e rq d)) = n"
proof (cases rq)
  case (POST_reminders act time)
  show ?thesis
  proof (cases "db_run_insert (atof e) (real_text e) (fault e) d
        (bind_parameter (toString e) act) (bind_parameter (toString e) time)")
    case (Inl err)
    then show ?thesis using POST_reminders assms by (simp add: post_reminders_def status_json_def)
  next
    case (Inr p)
    obtain d' m where p: "p = (d', m)" by (cases p)
    from Inr p have ins: "db_run_insert (atof e) (real_text e) (fault e) d
        (bind_parameter (toString e) act) (bind_parameter (toString e) time) = Inr (d', m)" by simp
    from ins have "sqlite_sequence d' = m" "m = max (sqlite_sequence d) (max_rowid (reminders d)) + 1"
      by (rule db_run_insert_Inr, simp)+
    then show ?thesis using POST_reminders Inr p assms by (simp add: post_reminders_def json_def)
  qed
qed (use assms in \<open>auto simp: get_suggestions_def get_reminders_def delete_reminders_def post_chat_def json_def status_json_def
      split: sum.splits\<close>)

lemma handle_schema_ok:
  assumes "schema_ok d"
  shows "schema_ok (store (handle e rq d))"
proof -
  let ?d' = "store (handle e rq d)"
  have seq: "sqlite_sequence d \<le> sqlite_sequence ?d'" by (rule handle_sequence)
  have rows: "\<forall>r\<in>set (reminders ?d'). id_col r \<le> sqlite_sequence ?d' \<and> activity r \<noteq> SNull \<and> scheduled_time r \<noteq> SNull"
  proof
    fix r assume "r \<in> set (reminders ?d')"
    from handle_rows [OF this] show "id_col r \<le> sqlite_sequence ?d' \<and> activity r \<noteq> SNull \<and> scheduled_time r \<noteq> SNull"
      using assms seq by (auto simp: schema_ok_def list_all_iff)
  qed
  have "distinct (map id_col (reminders ?d'))"
  proof (cases rq)
    case (POST_reminders act time)
    show ?thesis
    proof (cases "db_run_insert (atof e) (real_text e) (fault e) d
        (bind_parameter (toString e) act) (bind_parameter (toString e) time)")
      case (Inl err)
      then show ?thesis using POST_reminders assms by (simp add: post_reminders_def schema_ok_def)
    next
      case (Inr p)
      obtain d' n where p: "p = (d', n)" by (cases p)
      from Inr p have ins: "db_run_insert (atof e) (real_text e) (fault e) d
        (bind_parameter (toString e) act) (bind_parameter (toString e) time) = Inr (d', n)" by simp
      from ins have d': "map id_col (reminders d') = map id_col (reminders d) @ [n]"
        and n: "n = max (sqlite_sequence d) (max_rowid (reminders d)) + 1"
        by (rule db_run_insert_Inr, simp)+
      have "n \<notin> id_col ` set (reminders d)" using n max_rowid_ge [of _ "reminders d"] by fastforce
      then show ?thesis using POST_reminders Inr p d' assms by (simp add: post_reminders_def schema_ok_def)
    qed
  next
    case (DELETE_reminders param)
    then show ?thesis using assms
      by (auto simp: delete_reminders_def db_run_delete_def schema_ok_def distinct_map_filter_id split: option.splits)
  qed (use assms in \<open>auto simp: get_suggestions_def get_reminders_def post_chat_def schema_ok_def split: sum.splits\<close>)
  then show ?thesis using rows by (simp add: schema_ok_def list_all_iff)
qed

lemma serve_invariant:
  "schema_ok d \<Longrightarrow> serve steps d = (d', out) \<Longrightarrow>
   schema_ok d' \<and> sqlite_sequence d \<le> sqlite_sequence d' \<and>
   (\<forall>n\<in>set (assigned_ids out). sqlite_sequence d < n \<and> n \<le> sqlite_sequence d') \<and>
   sorted_wrt (<) (assigned_ids out)"
proof (induction steps arbitrary: d d' out)
  case Nil
  then show ?case by simp
next
  case (Cons step steps)
  obtain e rq where step: "step = (e, rq)" by (cases step)
  let ?r = "handle e rq d"
  obtain d1 out1 where rest: "serve steps (store ?r) = (d1, out1)" by (cases "serve steps (store ?r)")
  have d': "d' = d1" and out: "out = res ?r # out1"
    using Cons.prems(2) step rest by (simp_all add: Let_def)
  have ok: "schema_ok (store ?r)" using Cons.prems(1) by (rule handle_schema_ok)
  from Cons.IH [OF ok rest]
  have ih: "schema_ok d1" "sqlite_sequence (store ?r) \<le> sqlite_sequence d1"
    "\<forall>n\<in>set (assigned_ids out1). sqlite_sequence (store ?r) < n \<and> n \<le> sqlite_sequence d1"
    "sorted_wrt (<) (assigned_ids out1)" by auto
  have seq: "sqlite_sequence d \<le> sqlite_sequence (store ?r)" by (rule handle_sequence)
  show ?case
  proof (cases "body (res ?r)")
    case (IdBody n)
    from handle_IdBody [OF this] have n: "sqlite_sequence d < n" "sqlite_sequence (store ?r) = n" by auto
    have "assigned_ids out = n # assigned_ids out1" using out IdBody by simp
    then show ?thesis using ih n d' by auto
  qed (use ih seq d' out in \<open>auto\<close>)
qed

lemma serve_fst_snd: "serve steps d = (fst (serve steps d), snd (serve steps d))"
  by simp

lemma serve_Cons:
  "fst (serve ((e, rq) # rest) d) = fst (serve rest (store (handle e rq d)))"
  "snd (serve ((e, rq) # rest) d) = res (handle e rq d) # snd (serve rest (store (handle e rq d)))"
  by (simp_all add: Let_def split_beta)

lemma serve_append:
  "fst (serve (xs @ ys) d) = fst (serve ys (fst (serve xs d)))"
proof (induction xs arbitrary: d)
  case Nil
  then show ?case by simp
next
  case (Cons step xs)
  obtain e rq where "step = (e, rq)" by (cases step)
  then show ?case using Cons.IH by (simp add: serve_Cons del: serve.simps)
qed

lemma serve_schema_ok: "schema_ok d \<Longrightarrow> schema_ok (fst (serve steps d))"
  using serve_invariant [OF _ serve_fst_snd] by blast

lemma serve_rows:
  "schema_ok d \<Longrightarrow> r' \<in> set (reminders (fst (serve steps d))) \<Longrightarrow>
   r' \<in> set (reminders d) \<or> sqlite_sequence d < id_col r'"
proof (induction steps arbitrary: d)
  case Nil
  then show ?case by simp
next
  case (Cons step steps)
  obtain e rq where step: "step = (e, rq)" by (cases step)
  let ?d1 = "store (handle e rq d)"
  have ok: "schema_ok ?d1" using Cons.prems(1) by (rule handle_schema_ok)
  have "r' \<in> set (reminders (fst (serve steps ?d1)))"
    using Cons.prems(2) step by (simp add: serve_Cons del: serve.simps)
  from Cons.IH [OF ok this] consider "r' \<in> set (reminders ?d1)" | "sqlite_sequence ?d1 < id_col r'"
    by blast
  then show ?case
  proof cases
    case 1
    from handle_rows [OF 1] show ?thesis by auto
  next
    case 2
    then show ?thesis using handle_sequence [of d e rq] by simp
  qed
qed

lemma assigned_ids_Cons: "assigned_ids (r # rs) = assigned_ids [r] @ assigned_ids rs"
  by (simp split: body.splits)

lemma filter_new_nil: "set ys \<subseteq> set xs \<Longrightarrow> filter (\<lambda>r. r \<notin> set xs) ys = []"
  by (induction ys) auto

lemma handle_new_rows:
  "map id_col (filter (\<lambda>r. r \<notin> set (reminders d)) (reminders (store (handle e rq d)))) =
   assigned_ids [res (handle e rq d)]"
proof (cases rq)
  case GET_suggestions
  then show ?thesis
    by (simp add: get_suggestions_def json_def status_json_def filter_new_nil split: sum.splits)
next
  case GET_reminders
  then show ?thesis
    by (simp add: get_reminders_def json_def status_json_def filter_new_nil split: sum.splits)
next
  case (POST_reminders act time)
  let ?ins = "db_run_insert (atof e) (real_text e) (fault e) d
        (bind_parameter (toString e) act) (bind_parameter (toString e) time)"
  show ?thesis
  proof (cases ?ins)
    case (Inl err)
    then show ?thesis using POST_reminders
      by (simp add: post_reminders_def status_json_def filter_new_nil)
  next
    case (Inr p)
    obtain d' n where p: "p = (d', n)" by (cases p)
    from Inr p have ins: "?ins = Inr (d', n)" by simp
    from ins obtain row where d': "reminders d' = reminders d @ [row]" and row: "id_col row = n"
      and n: "n = max (sqlite_sequence d) (max_rowid (reminders d)) + 1"
      by (rule db_run_insert_Inr) simp
    have "row \<notin> set (reminders d)" using row n max_rowid_ge [of row "reminders d"] by auto
    then have "filter (\<lambda>r. r \<notin> set (reminders d)) (reminders d') = [row]"
      using d' by (simp add: filter_new_nil)
    then show ?thesis using POST_reminders Inr p row by (simp add: post_reminders_def json_def)
  qed
next
  case (DELETE_reminders param)
  then show ?thesis
    by (simp add: delete_reminders_def db_run_delete_def json_def status_json_def filter_new_nil
        split: option.splits)
next
  case (POST_chat msg)
  then show ?thesis
    by (simp add: post_chat_def json_def status_json_def filter_new_nil split: sum.splits)
qed

lemma new_rows_ids: "map id_col (new_rows steps d) = assigned_ids (snd (serve steps d))"
proof (induction steps arbitrary: d)
  case Nil
  then show ?case by simp
next
  case (Cons step steps)
  obtain e rq where step: "step = (e, rq)" by (cases step)
  show ?case
    unfolding step serve_Cons
    using Cons.IH [of "store (handle e rq d)"] handle_new_rows [of d e rq]
      assigned_ids_Cons [of "res (handle e rq d)" "snd (serve steps (store (handle e rq d)))"]
    by (simp add: Let_def del: assigned_ids.simps)
qed

lemma serve_subset:
  "set (reminders (fst (serve steps d))) \<subseteq> set (reminders d) \<union> set (new_rows steps d)"
proof (induction steps arbitrary: d)
  case Nil
  then show ?case by simp
next
  case (Cons step steps)
  obtain e rq where step: "step = (e, rq)" by (cases step)
  show ?case
    unfolding step serve_Cons
    using Cons.IH [of "store (handle e rq d)"] by (auto simp: Let_def)
qed

lemma run_example:
  "serve insert_delete_insert empty_db =
     (\<lparr>reminders = [\<lparr>id_col = 2, activity = SText ''Walk'',
          scheduled_time = SText ''2024-03-01T08:00:00'', completed = SInteger 0\<rparr>],
       sqlite_sequence = 2\<rparr>,
      [\<lparr>status = 200, body = IdBody 1\<rparr>,
       \<lparr>status = 200, body = MessageBody ''Reminder deleted''\<rparr>,
       \<lparr>status = 200, body = IdBody 2\<rparr>])"
  by (simp add: insert_delete_insert_def quiet_def empty_db_def post_reminders_def
        delete_reminders_def db_run_insert_def db_run_delete_def json_def max_rowid_def
        int64_max_def where_id_eq_def numeric_affinity_def classify_numeric_def isspace_def
        isdigit_def digits_value_def int64_min_def)

lemma schema_ok_three_rows: "schema_ok three_rows"
  by (simp add: schema_ok_def three_rows_def)

section \<open>The chat proxy\<close>

text \<open>
  C1. The prompt that \<^verbatim>\<open>POST /api/chat\<close> sends to the model for a string message is
  chosen by one rule. If the lowercased message contains \<^verbatim>\<open>diet\<close> somewhere, it is the
  7-day vegetarian diet-plan text followed by the message as it came; otherwise it is the
  self-care-assistant text with the message as it came in its middle. One prompt is sent,
  the two texts never coincide, and a message that holds the word in any mix of cases
  gets the diet plan.
\<close>

theorem chat_prompt_by_diet_rule:
  "calls (handle e (POST_chat (JString message)) d) =
     [if (\<exists>a b. toLowerCase message = a @ ''diet'' @ b)
      then ''Provide a detailed 7-day vegetarian diet plan with breakfast, lunch, dinner and snacks. Include calorie counts and nutritional benefits. The request was: '' @ message
      else ''As a professional self-care assistant, provide specific advice for: '' @ message @ ''. Give practical steps rather than asking follow-up questions.'']
   \<and> diet_template message \<noteq> advice_template message
   \<and> (\<forall>a w b. message = a @ w @ b \<and> toLowerCase w = ''diet'' \<longrightarrow>
         calls (handle e (POST_chat (JString message)) d) = [diet_template message])"
proof -
  have sel: "calls (handle e (POST_chat (JString message)) d) =
      [if includes_str (toLowerCase message) ''diet'' then diet_template message
       else advice_template message]"
    by (simp add: post_chat_def split: sum.splits)
  have any_case: "includes_str (toLowerCase message) ''diet''"
    if "message = a @ w @ b" and "toLowerCase w = ''diet''" for a w b
  proof -
    from that have "toLowerCase message = toLowerCase a @ ''diet'' @ toLowerCase b"
      by (simp add: toLowerCase_append)
    then show ?thesis unfolding includes_str_iff by blast
  qed
  have c1: "calls (handle e (POST_chat (JString message)) d) =
     [if (\<exists>a b. toLowerCase message = a @ ''diet'' @ b)
      then ''Provide a detailed 7-day vegetarian diet plan with breakfast, lunch, dinner and snacks. Include calorie counts and nutritional benefits. The request was: '' @ message
      else ''As a professional self-care assistant, provide specific advice for: '' @ message @ ''. Give practical steps rather than asking follow-up questions.'']"
    unfolding sel includes_str_iff diet_template_def advice_template_def by (rule refl)
  have c2: "diet_template message \<noteq> advice_template message"
    by (rule templates_differ)
  have c3: "\<forall>a w b. message = a @ w @ b \<and> toLowerCase w = ''diet'' \<longrightarrow>
         calls (handle e (POST_chat (JString message)) d) = [diet_template message]"
  proof (intro allI impI)
    fix a w b
    assume "message = a @ w @ b \<and> toLowerCase w = ''diet''"
    then have "includes_str (toLowerCase message) ''diet''" using any_case by blast
    then show "calls (handle e (POST_chat (JString message)) d) = [diet_template message]"
      unfolding sel by simp
  qed
  from c1 c2 c3 show ?thesis by (intro conjI)
qed

text \<open>The rule on a message with the word in capitals, and on a message without it.\<close>

theorem chat_prompt_by_diet_rule_witness:
  "calls (handle quiet (POST_chat (JString ''I need a DIET plan'')) empty_db) =
     [diet_template ''I need a DIET plan'']
   \<and> calls (handle quiet (POST_chat (JString ''I feel tired'')) empty_db) =
     [advice_template ''I feel tired'']"
proof -
  have 1: "''I need a DIET plan'' = ''I need a '' @ ''DIET'' @ '' plan'' \<and> toLowerCase ''DIET'' = ''diet''"
    by code_simp
  have 2: "\<not> (\<exists>a b. toLowerCase ''I feel tired'' = a @ ''diet'' @ b)"
    unfolding includes_str_iff [symmetric] by code_simp
  from 1 chat_prompt_by_diet_rule [of quiet "''I need a DIET plan''" empty_db]
  have "calls (handle quiet (POST_chat (JString ''I need a DIET plan'')) empty_db) =
     [diet_template ''I need a DIET plan'']" by blast
  moreover from 2 chat_prompt_by_diet_rule [of quiet "''I feel tired''" empty_db]
  have "calls (handle quiet (POST_chat (JString ''I feel tired'')) empty_db) =
     [advice_template ''I feel tired'']" by (simp add: advice_template_def)
  ultimately show ?thesis by simp
qed

text \<open>
  C10. When the body of \<^verbatim>\<open>POST /api/chat\<close> has no \<^verbatim>\<open>message\<close>, or one that is
  not a string, the handler still answers: the \<^verbatim>\<open>TypeError\<close> of the method call is
  caught and logged, the response is 500 with the body
  \<^verbatim>\<open>{ error: "Failed to process chat message" }\<close>, the model is not called and the
  database is as it was.
\<close>

theorem chat_without_string_message:
  assumes "\<forall>s. msg \<noteq> JString s"
  shows "handle e (POST_chat msg) d =
     \<lparr>res = \<lparr>status = 500, body = ErrorBody ''Failed to process chat message''\<rparr>,
      store = d, calls = [], console = [(''Chat Error:'', TypeError)]\<rparr>"
  using assms by (cases msg) (simp_all add: post_chat_def status_json_def)

text \<open>An absent message and a number for a message.\<close>

theorem chat_without_string_message_witness:
  "handle quiet (POST_chat JUndefined) empty_db =
     \<lparr>res = \<lparr>status = 500, body = ErrorBody ''Failed to process chat message''\<rparr>,
      store = empty_db, calls = [], console = [(''Chat Error:'', TypeError)]\<rparr>
   \<and> handle quiet (POST_chat (JNumber (Finite 7))) empty_db =
     \<lparr>res = \<lparr>status = 500, body = ErrorBody ''Failed to process chat message''\<rparr>,
      store = empty_db, calls = [], console = [(''Chat Error:'', TypeError)]\<rparr>"
  using chat_without_string_message [of JUndefined quiet empty_db]
    chat_without_string_message [of "JNumber (Finite 7)" quiet empty_db]
  by simp

section \<open>The suggestion proxy\<close>

text \<open>
  C8. \<^verbatim>\<open>GET /api/suggestions\<close> calls the model once, always with the same prompt,
  whatever the environment and the database, and leaves the database as it was; when the
  model answers, the response is 200 with the answer under \<^verbatim>\<open>suggestion\<close>.
\<close>

theorem suggestion_fixed_prompt:
  "calls (handle e GET_suggestions d) =
     [''Suggest a random self-care activity with a brief explanation why it's beneficial. Keep it concise and friendly.'']
   \<and> store (handle e GET_suggestions d) = d
   \<and> (\<forall>text. generateContent e suggestion_prompt = Inr text \<longrightarrow>
         res (handle e GET_suggestions d) = \<lparr>status = 200, body = SuggestionBody text\<rparr>)"
  by (simp add: get_suggestions_def suggestion_prompt_def json_def split: sum.splits)

theorem suggestion_fixed_prompt_witness:
  "calls (handle quiet GET_suggestions empty_db) = [suggestion_prompt]
   \<and> res (handle quiet GET_suggestions empty_db) =
       \<lparr>status = 200, body = SuggestionBody ''Take a short walk.''\<rparr>"
proof -
  have "generateContent quiet suggestion_prompt = Inr ''Take a short walk.''"
    by (simp add: quiet_def)
  with suggestion_fixed_prompt [of quiet empty_db] show ?thesis
    by (simp add: suggestion_prompt_def)
qed

section \<open>Listing\<close>

text \<open>
  C5. When the driver reports no error, \<^verbatim>\<open>GET /api/reminders\<close> answers 200 with
  rows that are the rows of the table, each as often as the table holds it, none left out
  and none added, in descending order of \<^verbatim>\<open>scheduled_time\<close>, whatever the order of
  the table; the database is as it was.
\<close>

theorem list_all_sorted_desc:
  assumes "fault e = None"
  shows "\<exists>rows. handle e GET_reminders d =
           \<lparr>res = \<lparr>status = 200, body = RowsBody rows\<rparr>, store = d, calls = [], console = []\<rparr>
         \<and> mset rows = mset (reminders d)
         \<and> sorted_wrt (\<lambda>r r'. sql_le (scheduled_time r') (scheduled_time r)) rows"
  using assms mset_order_by [of "reminders d"] sorted_order_by [of "reminders d"]
  by (simp add: get_reminders_def db_all_def json_def)

text \<open>The three rows come back latest first: ids 2, 4, 1.\<close>

theorem list_all_sorted_desc_witness:
  "map id_col (order_by_scheduled_time_desc (reminders three_rows)) = [2, 4, 1]
   \<and> (\<exists>rows. handle quiet GET_reminders three_rows =
           \<lparr>res = \<lparr>status = 200, body = RowsBody rows\<rparr>, store = three_rows,
            calls = [], console = []\<rparr>
         \<and> mset rows = mset (reminders three_rows)
         \<and> sorted_wrt (\<lambda>r r'. sql_le (scheduled_time r') (scheduled_time r)) rows)"
proof -
  have 1: "fault quiet = None" by (simp add: quiet_def)
  have 2: "map id_col (order_by_scheduled_time_desc (reminders three_rows)) = [2, 4, 1]"
    by (simp add: three_rows_def order_by_scheduled_time_desc_def)
  from 2 list_all_sorted_desc [OF 1, of three_rows] show ?thesis by (intro conjI)
qed

section \<open>Deleting\<close>

text \<open>
  C3. When the driver reports no error and no row has the id of the request,
  \<^verbatim>\<open>DELETE /api/reminders/:id\<close> answers 200 with
  \<^verbatim>\<open>{ message: "Reminder deleted" }\<close> and leaves the database as it was. The response
  is the one given from any other database \<open>d0\<close>, with or without such a row, and
  deleting again after a delete changes neither the database nor the response.
\<close>

theorem delete_absent_id:
  assumes "fault e = None"
    and "\<forall>r\<in>set (reminders d). \<not> where_id_eq (atof e) (id_col r) param"
  shows "handle e (DELETE_reminders param) d =
           \<lparr>res = \<lparr>status = 200, body = MessageBody ''Reminder deleted''\<rparr>,
            store = d, calls = [], console = []\<rparr>
         \<and> res (handle e (DELETE_reminders param) d0) = res (handle e (DELETE_reminders param) d)
         \<and> handle e (DELETE_reminders param) (store (handle e (DELETE_reminders param) d0)) =
             handle e (DELETE_reminders param) d0"
proof -
  have "filter (\<lambda>r. \<not> where_id_eq (atof e) (id_col r) param) (reminders d) = reminders d"
    using assms(2) by (simp add: filter_id_conv)
  then have 1: "handle e (DELETE_reminders param) d =
           \<lparr>res = \<lparr>status = 200, body = MessageBody ''Reminder deleted''\<rparr>,
            store = d, calls = [], console = []\<rparr>"
    using delete_ok [OF assms(1), of param d] by simp
  have 2: "res (handle e (DELETE_reminders param) d0) = res (handle e (DELETE_reminders param) d)"
    by (simp add: delete_ok [OF assms(1)])
  have 3: "handle e (DELETE_reminders param) (store (handle e (DELETE_reminders param) d0)) =
             handle e (DELETE_reminders param) d0"
    by (simp add: delete_ok [OF assms(1)])
  from 1 2 3 show ?thesis by (intro conjI)
qed

theorem delete_absent_id_witness:
  "handle quiet (DELETE_reminders ''7'') three_rows =
           \<lparr>res = \<lparr>status = 200, body = MessageBody ''Reminder deleted''\<rparr>,
            store = three_rows, calls = [], console = []\<rparr>
   \<and> res (handle quiet (DELETE_reminders ''7'') empty_db) =
       res (handle quiet (DELETE_reminders ''7'') three_rows)"
proof -
  have 1: "fault quiet = None" by (simp add: quiet_def)
  have 2: "\<forall>r\<in>set (reminders three_rows). \<not> where_id_eq (atof quiet) (id_col r) ''7''"
    by (simp add: three_rows_def where_id_eq_7)
  from delete_absent_id [OF 1 2, of empty_db] show ?thesis by simp
qed

text \<open>
  C4. When the driver reports no error and a row \<open>r\<close> has the id of the request, the
  delete succeeds and the table afterwards is the table before without \<open>r\<close>: the rows
  that stay are the other rows, unchanged and in their order, and exactly one row is
  gone.
\<close>

theorem delete_existing_id:
  assumes "schema_ok d" and "fault e = None"
    and "r \<in> set (reminders d)" and "where_id_eq (atof e) (id_col r) param"
  shows "res (handle e (DELETE_reminders param) d) =
           \<lparr>status = 200, body = MessageBody ''Reminder deleted''\<rparr>
         \<and> reminders (store (handle e (DELETE_reminders param) d)) =
             filter (\<lambda>x. x \<noteq> r) (reminders d)
         \<and> mset (reminders d) =
             add_mset r (mset (reminders (store (handle e (DELETE_reminders param) d))))
         \<and> sqlite_sequence (store (handle e (DELETE_reminders param) d)) = sqlite_sequence d"
proof -
  have ids: "distinct (map id_col (reminders d))" using assms(1) by (simp add: schema_ok_def)
  then have dist: "distinct (reminders d)" by (simp add: distinct_map)
  have same: "where_id_eq (atof e) (id_col x) param \<longleftrightarrow> x = r" if "x \<in> set (reminders d)" for x
  proof
    assume "where_id_eq (atof e) (id_col x) param"
    then have "id_col x = id_col r" using assms(4) by (rule where_id_eq_unique)
    then show "x = r" using ids that assms(3) by (simp add: distinct_map inj_on_def)
  next
    assume "x = r" then show "where_id_eq (atof e) (id_col x) param" using assms(4) by simp
  qed
  have flt: "filter (\<lambda>x. \<not> where_id_eq (atof e) (id_col x) param) (reminders d) =
      filter (\<lambda>x. x \<noteq> r) (reminders d)"
    by (rule filter_cong) (simp_all add: same)
  have 1: "res (handle e (DELETE_reminders param) d) =
           \<lparr>status = 200, body = MessageBody ''Reminder deleted''\<rparr>"
    by (simp add: delete_ok [OF assms(2)])
  have 2: "reminders (store (handle e (DELETE_reminders param) d)) =
             filter (\<lambda>x. x \<noteq> r) (reminders d)"
    by (simp add: delete_ok [OF assms(2)] flt)
  have 3: "mset (reminders d) =
             add_mset r (mset (reminders (store (handle e (DELETE_reminders param) d))))"
    unfolding 2 using dist assms(3) by (rule mset_remove_distinct)
  have 4: "sqlite_sequence (store (handle e (DELETE_reminders param) d)) = sqlite_sequence d"
    by (simp add: delete_ok [OF assms(2)])
  from 1 2 3 4 show ?thesis by (intro conjI)
qed

theorem delete_existing_id_witness:
  "res (handle quiet (DELETE_reminders ''2'') three_rows) =
     \<lparr>status = 200, body = MessageBody ''Reminder deleted''\<rparr>
   \<and> reminders (store (handle quiet (DELETE_reminders ''2'') three_rows)) =
         [\<lparr>id_col = 1, activity = SText ''Meditate'',
           scheduled_time = SText ''2024-01-01T08:00:00'', completed = SInteger 0\<rparr>,
          \<lparr>id_col = 4, activity = SText ''Read'',
           scheduled_time = SText ''2024-02-01T08:00:00'', completed = SInteger 0\<rparr>]"
proof -
  let ?r = "\<lparr>id_col = 2, activity = SText ''Walk'',
           scheduled_time = SText ''2024-03-01T08:00:00'', completed = SInteger 0\<rparr>"
  have 1: "fault quiet = None" by (simp add: quiet_def)
  have 2: "?r \<in> set (reminders three_rows)" by (simp add: three_rows_def)
  have 3: "where_id_eq (atof quiet) (id_col ?r) ''2''" by (simp add: where_id_eq_2)
  from delete_existing_id [OF schema_ok_three_rows 1 2 3] show ?thesis
    by (simp add: three_rows_def)
qed

section \<open>Inserting\<close>

text \<open>
  Neither field comes back as it was supplied here: the number 5 given as activity is
  listed as the text \<^verbatim>\<open>"5"\<close>, and the string \<^verbatim>\<open>"2024"\<close> given as
  scheduled time is listed as the number 2024.
\<close>

theorem stored_values_counterexample:
  "res (handle quiet (POST_reminders (JNumber (Finite 5)) (JString ''2024'')) empty_db) =
     \<lparr>status = 200, body = IdBody 1\<rparr>
   \<and> res (handle quiet GET_reminders
        (store (handle quiet (POST_reminders (JNumber (Finite 5)) (JString ''2024'')) empty_db))) =
     \<lparr>status = 200, body = RowsBody
        [\<lparr>id_col = 1, activity = SText ''5'',
          scheduled_time = SInteger 2024, completed = SInteger 0\<rparr>]\<rparr>"
  by (simp add: quiet_def empty_db_def post_reminders_def get_reminders_def db_run_insert_def
      db_all_def json_def max_rowid_def int64_max_def int64_min_def numeric_affinity_def
      classify_numeric_def isspace_def isdigit_def digits_value_def int_text_def digit_char_def
      order_by_scheduled_time_desc_def)

text \<open>
  C6, amended. A successful \<^verbatim>\<open>POST /api/reminders\<close> answers \<^verbatim>\<open>{ id: n }\<close> and
  appends one row to the table: its id is \<open>n\<close>, above the counter and above every id
  of the table, and its \<^verbatim>\<open>completed\<close> is 0. The row's activity is the supplied
  activity when that is a string; its scheduled time is the supplied one when that is a
  string that is no numeric literal. A string that is a numeric literal is not kept as a
  text (an integer literal of 64 bits is kept as that integer). A listing that follows
  without a driver error contains the row.
\<close>

theorem insert_then_list:
  assumes "status (res (handle e (POST_reminders act time) d)) = 200"
    and "fault e' = None"
  shows "\<exists>n row rows.
           res (handle e (POST_reminders act time) d) = \<lparr>status = 200, body = IdBody n\<rparr>
         \<and> sqlite_sequence d < n \<and> (\<forall>r\<in>set (reminders d). id_col r < n)
         \<and> reminders (store (handle e (POST_reminders act time) d)) = reminders d @ [row]
         \<and> id_col row = n \<and> completed row = SInteger 0
         \<and> (\<forall>a. act = JString a \<longrightarrow> activity row = SText a)
         \<and> (\<forall>t. time = JString t \<and> classify_numeric t = NotNumeric \<longrightarrow>
               scheduled_time row = SText t)
         \<and> (\<forall>t. time = JString t \<and> classify_numeric t \<noteq> NotNumeric \<longrightarrow>
               (\<forall>s. scheduled_time row \<noteq> SText s))
         \<and> (\<forall>t k. time = JString t \<and> classify_numeric t = IntegerLiteral k
                 \<and> int64_min \<le> k \<and> k \<le> int64_max \<longrightarrow>
               scheduled_time row = SInteger k)
         \<and> res (handle e' GET_reminders (store (handle e (POST_reminders act time) d))) =
             \<lparr>status = 200, body = RowsBody rows\<rparr>
         \<and> row \<in> set rows"
proof -
  let ?ins = "db_run_insert (atof e) (real_text e) (fault e) d
        (bind_parameter (toString e) act) (bind_parameter (toString e) time)"
  from assms(1) have "status (res (post_reminders e act time d)) = 200" by simp
  then obtain d' n where ins: "?ins = Inr (d', n)"
    and post: "post_reminders e act time d =
           \<lparr>res = \<lparr>status = 200, body = IdBody n\<rparr>, store = d', calls = [], console = []\<rparr>"
    by (rule post_reminders_200)
  let ?row = "\<lparr>id_col = n,
      activity = text_affinity (real_text e) (bind_parameter (toString e) act),
      scheduled_time = column_numeric_affinity (atof e) (bind_parameter (toString e) time),
      completed = SInteger 0\<rparr>"
  from ins have n: "n = max (sqlite_sequence d) (max_rowid (reminders d)) + 1"
    and rows': "reminders d' = reminders d @ [?row]"
    by (rule db_run_insert_Inr, simp)+
  have 1: "res (handle e (POST_reminders act time) d) = \<lparr>status = 200, body = IdBody n\<rparr>"
    using post by simp
  have 2: "sqlite_sequence d < n" using n by simp
  have 3: "\<forall>r\<in>set (reminders d). id_col r < n"
    using n max_rowid_ge [of _ "reminders d"] by fastforce
  have 4: "reminders (store (handle e (POST_reminders act time) d)) = reminders d @ [?row]"
    using post rows' by simp
  have 5: "id_col ?row = n" and 6: "completed ?row = SInteger 0" by simp_all
  have 7: "\<forall>a. act = JString a \<longrightarrow> activity ?row = SText a" by simp
  have 8: "\<forall>t. time = JString t \<and> classify_numeric t = NotNumeric \<longrightarrow>
               scheduled_time ?row = SText t"
    by (simp add: numeric_affinity_text)
  have 9: "\<forall>t. time = JString t \<and> classify_numeric t \<noteq> NotNumeric \<longrightarrow>
               (\<forall>s. scheduled_time ?row \<noteq> SText s)"
    by (simp add: numeric_affinity_number)
  have 10: "\<forall>t k. time = JString t \<and> classify_numeric t = IntegerLiteral k
                 \<and> int64_min \<le> k \<and> k \<le> int64_max \<longrightarrow>
               scheduled_time ?row = SInteger k"
    by (simp add: numeric_affinity_integer)
  let ?rows = "order_by_scheduled_time_desc (reminders d')"
  have 11: "res (handle e' GET_reminders (store (handle e (POST_reminders act time) d))) =
             \<lparr>status = 200, body = RowsBody ?rows\<rparr>"
    using post assms(2) by (simp add: get_reminders_def db_all_def json_def)
  have "set ?rows = set (reminders d')"
    using mset_order_by [of "reminders d'"] by (rule mset_eq_setD)
  then have 12: "?row \<in> set ?rows" using rows' by simp
  from 1 2 3 4 5 6 7 8 9 10 11 12 show ?thesis by blast
qed

text \<open>The scenario of the specification: the first reminder gets an id and is listed as given.\<close>

theorem insert_then_list_witness:
  "\<exists>n rows.
     res (handle quiet (POST_reminders (JString ''Meditate'') (JString ''2024-01-01T08:00:00'')) empty_db) =
       \<lparr>status = 200, body = IdBody n\<rparr>
   \<and> res (handle quiet GET_reminders
        (store (handle quiet (POST_reminders (JString ''Meditate'') (JString ''2024-01-01T08:00:00'')) empty_db))) =
       \<lparr>status = 200, body = RowsBody rows\<rparr>
   \<and> \<lparr>id_col = n, activity = SText ''Meditate'',
       scheduled_time = SText ''2024-01-01T08:00:00'', completed = SInteger 0\<rparr> \<in> set rows"
proof -
  let ?post = "handle quiet (POST_reminders (JString ''Meditate'') (JString ''2024-01-01T08:00:00'')) empty_db"
  have 1: "status (res ?post) = 200"
    by (simp add: quiet_def empty_db_def post_reminders_def db_run_insert_def json_def
        max_rowid_def int64_max_def)
  have 2: "fault quiet = None" by (simp add: quiet_def)
  have 3: "classify_numeric ''2024-01-01T08:00:00'' = NotNumeric"
    by (simp add: classify_numeric_def isspace_def isdigit_def)
  from insert_then_list [OF 1 2] show ?thesis
  proof (elim exE conjE)
    fix n row rows
    assume a: "res ?post = \<lparr>status = 200, body = IdBody n\<rparr>"
      and b: "id_col row = n" "completed row = SInteger 0"
      and c: "\<forall>a. JString ''Meditate'' = JString a \<longrightarrow> activity row = SText a"
      and d: "\<forall>t. JString ''2024-01-01T08:00:00'' = JString t \<and> classify_numeric t = NotNumeric \<longrightarrow>
               scheduled_time row = SText t"
      and e: "res (handle quiet GET_reminders (store ?post)) = \<lparr>status = 200, body = RowsBody rows\<rparr>"
      and f: "row \<in> set rows"
    from c have "activity row = SText ''Meditate''" by simp
    moreover from d 3 have "scheduled_time row = SText ''2024-01-01T08:00:00''" by simp
    ultimately have "row = \<lparr>id_col = n, activity = SText ''Meditate'',
         scheduled_time = SText ''2024-01-01T08:00:00'', completed = SInteger 0\<rparr>"
      using b by (cases row) simp
    with f have g: "\<lparr>id_col = n, activity = SText ''Meditate'',
         scheduled_time = SText ''2024-01-01T08:00:00'', completed = SInteger 0\<rparr> \<in> set rows"
      by simp
    from a e g show ?thesis by (intro exI conjI)
  qed
qed

section \<open>Errors\<close>

text \<open>
  The error body of a reminder route is not a fixed message: it is the message of the
  driver's error, and nothing is logged.
\<close>

theorem storage_error_counterexample:
  "handle failing_disk GET_reminders empty_db =
     \<lparr>res = \<lparr>status = 500, body = ErrorBody ''SQLITE_IOERR: disk I/O error''\<rparr>,
      store = empty_db, calls = [], console = []\<rparr>"
  by (simp add: failing_disk_def quiet_def get_reminders_def db_all_def status_json_def)

text \<open>
  C2, amended. A failure of the model, or an exception while the chat prompt is built,
  gives 500 with the fixed body of the route (\<^verbatim>\<open>Failed to get suggestion\<close>,
  \<^verbatim>\<open>Failed to process chat message\<close>); the error goes to the console and not into the
  response. A failure of a statement of the store gives 500 with the message of the
  driver's error as the body, and no line on the console. In every case the database is
  as it was.
\<close>

theorem error_responses:
  "(generateContent e suggestion_prompt = Inl error \<longrightarrow>
      handle e GET_suggestions d =
        \<lparr>res = \<lparr>status = 500, body = ErrorBody ''Failed to get suggestion''\<rparr>,
         store = d, calls = [suggestion_prompt], console = [(''API Error:'', error)]\<rparr>)
   \<and> (chat_prompt msg = Inl error \<longrightarrow>
      handle e (POST_chat msg) d =
        \<lparr>res = \<lparr>status = 500, body = ErrorBody ''Failed to process chat message''\<rparr>,
         store = d, calls = [], console = [(''Chat Error:'', error)]\<rparr>)
   \<and> (chat_prompt msg = Inr prompt \<and> generateContent e prompt = Inl error \<longrightarrow>
      handle e (POST_chat msg) d =
        \<lparr>res = \<lparr>status = 500, body = ErrorBody ''Failed to process chat message''\<rparr>,
         store = d, calls = [prompt], console = [(''Chat Error:'', error)]\<rparr>)
   \<and> (db_all (fault e) d = Inl err \<longrightarrow>
      handle e GET_reminders d =
        \<lparr>res = \<lparr>status = 500, body = ErrorBody (error_message err)\<rparr>,
         store = d, calls = [], console = []\<rparr>)
   \<and> (db_run_insert (atof e) (real_text e) (fault e) d
         (bind_parameter (toString e) act) (bind_parameter (toString e) time) = Inl err \<longrightarrow>
      handle e (POST_reminders act time) d =
        \<lparr>res = \<lparr>status = 500, body = ErrorBody (error_message err)\<rparr>,
         store = d, calls = [], console = []\<rparr>)
   \<and> (db_run_delete (atof e) (fault e) d param = Inl err \<longrightarrow>
      handle e (DELETE_reminders param) d =
        \<lparr>res = \<lparr>status = 500, body = ErrorBody (error_message err)\<rparr>,
         store = d, calls = [], console = []\<rparr>)"
  by (simp add: get_suggestions_def post_chat_def get_reminders_def post_reminders_def
      delete_reminders_def status_json_def)

theorem error_responses_witness:
  "handle failing_model GET_suggestions three_rows =
        \<lparr>res = \<lparr>status = 500, body = ErrorBody ''Failed to get suggestion''\<rparr>,
         store = three_rows, calls = [suggestion_prompt],
         console = [(''API Error:'', UpstreamError ''429 quota exceeded'')]\<rparr>
   \<and> handle failing_model (POST_chat JNull) three_rows =
        \<lparr>res = \<lparr>status = 500, body = ErrorBody ''Failed to process chat message''\<rparr>,
         store = three_rows, calls = [], console = [(''Chat Error:'', TypeError)]\<rparr>
   \<and> handle failing_model (POST_chat (JString ''I feel tired'')) three_rows =
        \<lparr>res = \<lparr>status = 500, body = ErrorBody ''Failed to process chat message''\<rparr>,
         store = three_rows, calls = [advice_template ''I feel tired''],
         console = [(''Chat Error:'', UpstreamError ''429 quota exceeded'')]\<rparr>
   \<and> handle failing_disk GET_reminders three_rows =
        \<lparr>res = \<lparr>status = 500, body = ErrorBody ''SQLITE_IOERR: disk I/O error''\<rparr>,
         store = three_rows, calls = [], console = []\<rparr>
   \<and> handle quiet (POST_reminders JUndefined (JString ''2024-01-01T08:00:00'')) three_rows =
        \<lparr>res = \<lparr>status = 500, body = ErrorBody
           ''SQLITE_CONSTRAINT: NOT NULL constraint failed: reminders.activity''\<rparr>,
         store = three_rows, calls = [], console = []\<rparr>
   \<and> handle failing_disk (DELETE_reminders ''2'') three_rows =
        \<lparr>res = \<lparr>status = 500, body = ErrorBody ''SQLITE_IOERR: disk I/O error''\<rparr>,
         store = three_rows, calls = [], console = []\<rparr>"
proof -
  let ?up = "UpstreamError ''429 quota exceeded''"
  let ?io = "SqliteError ''SQLITE_IOERR: disk I/O error''"
  let ?nn = "SqliteError ''SQLITE_CONSTRAINT: NOT NULL constraint failed: reminders.activity''"
  have 1: "generateContent failing_model suggestion_prompt = Inl ?up"
    by (simp add: failing_model_def)
  have 2: "chat_prompt JNull = Inl TypeError" by simp
  have "chat_prompt (JString ''I feel tired'') = Inr (advice_template ''I feel tired'')"
    by code_simp
  then have 3: "chat_prompt (JString ''I feel tired'') = Inr (advice_template ''I feel tired'')
           \<and> generateContent failing_model (advice_template ''I feel tired'') = Inl ?up"
    by (simp add: failing_model_def)
  have 4: "db_all (fault failing_disk) three_rows = Inl ?io"
    by (simp add: failing_disk_def db_all_def)
  have 5: "db_run_insert (atof quiet) (real_text quiet) (fault quiet) three_rows
      (bind_parameter (toString quiet) JUndefined)
      (bind_parameter (toString quiet) (JString ''2024-01-01T08:00:00'')) = Inl ?nn"
    by (simp add: quiet_def db_run_insert_def three_rows_def max_rowid_def int64_max_def)
  have 6: "db_run_delete (atof failing_disk) (fault failing_disk) three_rows ''2'' = Inl ?io"
    by (simp add: failing_disk_def db_run_delete_def)
  from 1 error_responses [of failing_model ?up three_rows]
  have a: "handle failing_model GET_suggestions three_rows =
        \<lparr>res = \<lparr>status = 500, body = ErrorBody ''Failed to get suggestion''\<rparr>,
         store = three_rows, calls = [suggestion_prompt], console = [(''API Error:'', ?up)]\<rparr>"
    by blast
  from 2 error_responses [of failing_model TypeError three_rows JNull]
  have b: "handle failing_model (POST_chat JNull) three_rows =
        \<lparr>res = \<lparr>status = 500, body = ErrorBody ''Failed to process chat message''\<rparr>,
         store = three_rows, calls = [], console = [(''Chat Error:'', TypeError)]\<rparr>"
    by blast
  from 3 error_responses [of failing_model ?up three_rows "JString ''I feel tired''" "advice_template ''I feel tired''"]
  have c: "handle failing_model (POST_chat (JString ''I feel tired'')) three_rows =
        \<lparr>res = \<lparr>status = 500, body = ErrorBody ''Failed to process chat message''\<rparr>,
         store = three_rows, calls = [advice_template ''I feel tired''],
         console = [(''Chat Error:'', ?up)]\<rparr>"
    by blast
  from 4 error_responses [of failing_disk _ three_rows _ _ ?io]
  have d: "handle failing_disk GET_reminders three_rows =
        \<lparr>res = \<lparr>status = 500, body = ErrorBody (error_message ?io)\<rparr>,
         store = three_rows, calls = [], console = []\<rparr>"
    by blast
  from 5 error_responses [of quiet _ three_rows _ _ ?nn JUndefined "JString ''2024-01-01T08:00:00''"]
  have e: "handle quiet (POST_reminders JUndefined (JString ''2024-01-01T08:00:00'')) three_rows =
        \<lparr>res = \<lparr>status = 500, body = ErrorBody (error_message ?nn)\<rparr>,
         store = three_rows, calls = [], console = []\<rparr>"
    by blast
  from 6 error_responses [of failing_disk _ three_rows _ _ ?io _ _ "''2''"]
  have f: "handle failing_disk (DELETE_reminders ''2'') three_rows =
        \<lparr>res = \<lparr>status = 500, body = ErrorBody (error_message ?io)\<rparr>,
         store = three_rows, calls = [], console = []\<rparr>"
    by blast
  from a b c d e f show ?thesis by simp
qed

section \<open>Ids and rows over a run\<close>

text \<open>
  C7. From a database that meets the schema, every run of requests ends in a database
  that meets it: ids are unique and every row has an activity and a scheduled time that
  are not NULL. The rows that the run stores carry, in order, the ids that its inserts
  report, and these grow strictly: no id is given twice, whatever was deleted in between,
  and each is above every id of the rows the run started with. Cut the run in two at any
  point: a row of the table at the end that has the id of a row of the table at the cut
  is that row. Every row of the table at the end was there at the start or was stored by
  the run.
\<close>

theorem ids_never_reused:
  assumes "schema_ok d" and "serve (before @ after) d = (d', out)"
  shows "schema_ok d'
       \<and> map id_col (new_rows (before @ after) d) = assigned_ids out
       \<and> sorted_wrt (<) (assigned_ids out)
       \<and> distinct (assigned_ids out)
       \<and> (\<forall>n\<in>set (assigned_ids out). \<forall>r\<in>set (reminders d). id_col r < n)
       \<and> (\<forall>r\<in>set (reminders (fst (serve before d))). \<forall>r'\<in>set (reminders d').
             id_col r' = id_col r \<longrightarrow> r' = r)
       \<and> set (reminders d') \<subseteq> set (reminders d) \<union> set (new_rows (before @ after) d)
       \<and> distinct (map id_col (reminders d'))
       \<and> (\<forall>r\<in>set (reminders d'). activity r \<noteq> SNull \<and> scheduled_time r \<noteq> SNull)"
proof -
  from serve_invariant [OF assms]
  have ok: "schema_ok d'" and srt: "sorted_wrt (<) (assigned_ids out)"
    and above: "\<forall>n\<in>set (assigned_ids out). sqlite_sequence d < n" by auto
  have d': "d' = fst (serve (before @ after) d)" and out: "out = snd (serve (before @ after) d)"
    using assms(2) by simp_all
  have 2: "map id_col (new_rows (before @ after) d) = assigned_ids out"
    unfolding out by (rule new_rows_ids)
  have 3: "distinct (assigned_ids out)" using srt by (simp add: strict_sorted_iff)
  have 4: "\<forall>n\<in>set (assigned_ids out). \<forall>r\<in>set (reminders d). id_col r < n"
    using above assms(1) by (fastforce simp: schema_ok_def list_all_iff)
  let ?d1 = "fst (serve before d)"
  have ok1: "schema_ok ?d1" using assms(1) by (rule serve_schema_ok)
  have d'1: "d' = fst (serve after ?d1)" unfolding d' by (rule serve_append)
  have 5: "\<forall>r\<in>set (reminders ?d1). \<forall>r'\<in>set (reminders d'). id_col r' = id_col r \<longrightarrow> r' = r"
  proof (intro ballI impI)
    fix r r'
    assume r: "r \<in> set (reminders ?d1)" and r': "r' \<in> set (reminders d')"
      and same: "id_col r' = id_col r"
    have "id_col r \<le> sqlite_sequence ?d1" using ok1 r by (simp add: schema_ok_def list_all_iff)
    then have "\<not> sqlite_sequence ?d1 < id_col r'" using same by simp
    moreover from r' have "r' \<in> set (reminders (fst (serve after ?d1)))" using d'1 by simp
    ultimately have "r' \<in> set (reminders ?d1)" using serve_rows [OF ok1] by blast
    moreover have "inj_on id_col (set (reminders ?d1))"
      using ok1 by (simp add: schema_ok_def distinct_map)
    ultimately show "r' = r" using r same by (simp add: inj_on_def)
  qed
  have 6: "set (reminders d') \<subseteq> set (reminders d) \<union> set (new_rows (before @ after) d)"
    unfolding d' by (rule serve_subset)
  have 7: "distinct (map id_col (reminders d'))" using ok by (simp add: schema_ok_def)
  have 8: "\<forall>r\<in>set (reminders d'). activity r \<noteq> SNull \<and> scheduled_time r \<noteq> SNull"
    using ok by (simp add: schema_ok_def list_all_iff)
  from ok 2 srt 3 4 5 6 7 8 show ?thesis by (intro conjI)
qed

text \<open>
  The run of three requests: the rows stored have ids 1 and 2, and the second insert
  does not take the id 1 that the deletion freed.
\<close>

theorem ids_never_reused_witness:
  "map id_col (new_rows insert_delete_insert empty_db) = [1, 2]
   \<and> map id_col (reminders (fst (serve insert_delete_insert empty_db))) = [2]
   \<and> schema_ok (fst (serve insert_delete_insert empty_db))"
proof -
  have 1: "schema_ok empty_db" by (simp add: schema_ok_def empty_db_def)
  have split: "insert_delete_insert = take 1 insert_delete_insert @ drop 1 insert_delete_insert"
    by simp
  have 2: "serve (take 1 insert_delete_insert @ drop 1 insert_delete_insert) empty_db =
      (fst (serve insert_delete_insert empty_db), snd (serve insert_delete_insert empty_db))"
    by simp
  from ids_never_reused [OF 1 2]
  have "schema_ok (fst (serve insert_delete_insert empty_db))"
    and "map id_col (new_rows insert_delete_insert empty_db) =
         assigned_ids (snd (serve insert_delete_insert empty_db))"
    by simp_all
  then show ?thesis by (simp add: run_example)
qed

text \<open>
  C9. No request changes a row: a row of the table after a request that has the id of a
  row of the table before it is that row, with the same activity, scheduled time and
  \<^verbatim>\<open>completed\<close>.
\<close>

theorem rows_never_updated:
  assumes "schema_ok d" and "r \<in> set (reminders d)"
    and "r' \<in> set (reminders (store (handle e rq d)))" and "id_col r' = id_col r"
  shows "r' = r"
proof -
  have "id_col r \<le> max_rowid (reminders d)" using assms(2) by (rule max_rowid_ge)
  then have "\<not> max (sqlite_sequence d) (max_rowid (reminders d)) < id_col r'"
    using assms(4) by simp
  with handle_rows [OF assms(3)] have "r' \<in> set (reminders d)" by blast
  moreover have "inj_on id_col (set (reminders d))"
    using assms(1) by (simp add: schema_ok_def distinct_map)
  ultimately show ?thesis using assms(2,4) by (simp add: inj_on_def)
qed

theorem rows_never_updated_witness:
  "hd (reminders (store (handle quiet (DELETE_reminders ''2'') three_rows))) =
     \<lparr>id_col = 1, activity = SText ''Meditate'',
      scheduled_time = SText ''2024-01-01T08:00:00'', completed = SInteger 0\<rparr>"
proof -
  let ?r = "\<lparr>id_col = 1, activity = SText ''Meditate'',
      scheduled_time = SText ''2024-01-01T08:00:00'', completed = SInteger 0\<rparr>"
  let ?after = "reminders (store (handle quiet (DELETE_reminders ''2'') three_rows))"
  have 1: "?r \<in> set (reminders three_rows)" by (simp add: three_rows_def)
  have "fault quiet = None" by (simp add: quiet_def)
  then have "?after = filter (\<lambda>r. id_col r \<noteq> 2) (reminders three_rows)"
    by (simp add: delete_ok where_id_eq_2)
  then have 2: "hd ?after \<in> set ?after" and 3: "id_col (hd ?after) = id_col ?r"
    by (simp_all add: three_rows_def)
  from schema_ok_three_rows 1 2 3 show ?thesis by (rule rows_never_updated)
qed

end
